theory Spec2Isabelle
  imports Main
begin

section \<open>The tea service of \<open>src/index.js\<close>\<close>

text \<open>
  The program is one Express application with five routes over two module-level
  variables, \<open>teaData\<close> (an array of tea objects) and \<open>nextId\<close> (a number). Each route
  handler is modelled as a function from the store and the request's inputs to the new
  store and the response.

  JavaScript numbers are IEEE doubles. The only numbers the handlers compute with are the
  counter, the ids it hands out and the result of \<open>parseInt\<close>; all of them are integers,
  and they are modelled as mathematical integers (\<open>int\<close>), which is what a double holds
  exactly up to \<open>2 ^ 53\<close>. \<open>NaN\<close>, which \<open>parseInt\<close> can return, is a value of its own.
  The limits of the machine (memory, the maximal length of an array) are not modelled.
\<close>

subsection \<open>Values\<close>

text \<open>
  A string is a sequence of UTF-16 code units. \<open>units\<close> writes an ASCII literal as one.
\<close>

type_synonym code_unit = nat
type_synonym js_string = "code_unit list"

definition units :: "string \<Rightarrow> js_string" where
  "units cs = map of_char cs"

datatype js_number = NaN | Integer int

text \<open>\<open>a === b\<close> for a number \<open>a\<close> that is an integer: \<open>NaN\<close> equals nothing.\<close>

fun strict_equals :: "int \<Rightarrow> js_number \<Rightarrow> bool" where
  "strict_equals a NaN = False"
| "strict_equals a (Integer b) = (a = b)"

text \<open>
  The values that \<open>express.json()\<close> puts into \<open>req.body\<close> are never inspected by the
  handlers, so their type is a parameter \<open>'v\<close>; \<open>None\<close> stands for \<open>undefined\<close>, the
  value of a property that the object does not have. \<open>json\<close> is a concrete choice of
  \<open>'v\<close> for worked examples.
\<close>

datatype json = JNull | JBool bool | JNumber int | JString string

type_synonym 'v js_object = "string \<Rightarrow> 'v option"

record 'v tea =
  id' :: int
  name :: "'v option"
  price :: "'v option"

record 'v store =
  teaData :: "'v tea list"
  nextId :: int

text \<open>\<open>let teaData = []; let nextId = 1;\<close>\<close>

definition initial :: "'v store" where
  "initial = \<lparr>teaData = [], nextId = 1\<rparr>"

subsection \<open>The response\<close>

text \<open>
  The exception that a handler can throw: reading a property of \<open>undefined\<close> is a
  \<open>TypeError\<close>.
\<close>

datatype error = TypeError

text \<open>
  What a handler hands to \<open>res.send\<close>: a string, one tea object or the array. The
  fourth kind of body is the page that Express writes for an exception that a handler
  did not catch.
\<close>

datatype 'v payload = Text string | Tea "'v tea" | Teas "'v tea list" | ErrorPage error

record 'v response =
  status :: nat
  body :: "'v payload"

text \<open>
  \<open>res.status(code).send(chunk)\<close>. Express's \<open>send\<close> replaces the chunk by the empty
  string when the status code is 204 or 304, so such a response goes out without a body.
\<close>

definition send :: "nat \<Rightarrow> 'v payload \<Rightarrow> 'v response" where
  "send code chunk =
     \<lparr>status = code, body = (if code = 204 \<or> code = 304 then Text [] else chunk)\<rparr>"

text \<open>
  An exception thrown in a handler ends the handler there. Express catches it and its
  default error handler answers the request with status 500.
\<close>

definition uncaught :: "error \<Rightarrow> 'v response" where
  "uncaught e = \<lparr>status = 500, body = ErrorPage e\<rparr>"

subsection \<open>\<open>parseInt\<close>\<close>

text \<open>
  \<open>parseInt(string)\<close> with no radix, as ECMAScript defines it: leading white space is
  dropped, then an optional sign, then \<open>0x\<close> or \<open>0X\<close> switches the radix to 16; the
  longest prefix of digits of the radix is the numeral, whatever follows it is ignored,
  and an empty numeral gives \<open>NaN\<close>. The value of the numeral is taken exactly.
\<close>

text \<open>White space and line terminators, by code unit.\<close>

definition is_white_space :: "code_unit \<Rightarrow> bool" where
  "is_white_space c \<longleftrightarrow>
     c = 9 \<or> c = 10 \<or> c = 11 \<or> c = 12 \<or> c = 13 \<or> c = 32 \<or> c = 160 \<or> c = 5760 \<or>
     (8192 \<le> c \<and> c \<le> 8202) \<or> c = 8232 \<or> c = 8233 \<or> c = 8239 \<or> c = 8287 \<or>
     c = 12288 \<or> c = 65279"

text \<open>The value of a digit: \<open>0\<close> to \<open>9\<close>, then \<open>a\<close> to \<open>z\<close> or \<open>A\<close> to \<open>Z\<close> for 10 to 35.\<close>

definition digit_value :: "code_unit \<Rightarrow> nat option" where
  "digit_value c =
     (if 48 \<le> c \<and> c \<le> 57 then Some (c - 48)
      else if 97 \<le> c \<and> c \<le> 122 then Some (c - 87)
      else if 65 \<le> c \<and> c \<le> 90 then Some (c - 55)
      else None)"

definition is_radix_digit :: "nat \<Rightarrow> code_unit \<Rightarrow> bool" where
  "is_radix_digit R c = (case digit_value c of None \<Rightarrow> False | Some d \<Rightarrow> d < R)"

fun radix_value :: "nat \<Rightarrow> nat \<Rightarrow> code_unit list \<Rightarrow> nat" where
  "radix_value R acc [] = acc"
| "radix_value R acc (c # cs) =
     radix_value R (acc * R + (case digit_value c of None \<Rightarrow> 0 | Some d \<Rightarrow> d)) cs"

definition parseInt :: "js_string \<Rightarrow> js_number" where
  "parseInt inputString =
     (let S = dropWhile is_white_space inputString;
          sign = (if S \<noteq> [] \<and> hd S = 45 then - 1 else (1::int));
          S1 = (if S \<noteq> [] \<and> (hd S = 43 \<or> hd S = 45) then tl S else S);
          hex = (2 \<le> length S1 \<and> (take 2 S1 = [48, 120] \<or> take 2 S1 = [48, 88]));
          R = (if hex then 16 else 10);
          S2 = (if hex then drop 2 S1 else S1);
          Z = takeWhile (is_radix_digit R) S2
      in if Z = [] then NaN else Integer (sign * int (radix_value R 0 Z)))"

subsection \<open>Array methods\<close>

text \<open>
  The slot of the first element that satisfies the predicate. \<open>find\<close> returns the
  object in that slot (a reference: assigning to its properties changes the array's
  element), \<open>findIndex\<close> returns the slot's index, or \<open>-1\<close> when there is none.
\<close>

fun first_slot :: "('a \<Rightarrow> bool) \<Rightarrow> 'a list \<Rightarrow> nat option" where
  "first_slot P [] = None"
| "first_slot P (x # xs) =
     (if P x then Some 0 else map_option Suc (first_slot P xs))"

definition findIndex :: "('a \<Rightarrow> bool) \<Rightarrow> 'a list \<Rightarrow> int" where
  "findIndex P xs = (case first_slot P xs of None \<Rightarrow> - 1 | Some i \<Rightarrow> int i)"

text \<open>
  \<open>array.splice(start, deleteCount)\<close>: a negative start counts from the end, and both
  arguments are clamped to the array.
\<close>

definition splice' :: "'a list \<Rightarrow> int \<Rightarrow> int \<Rightarrow> 'a list" where
  "splice' xs start deleteCount =
     (let len = int (length xs);
          actualStart = (if start < 0 then max (len + start) 0 else min start len);
          actualDeleteCount = min (max deleteCount 0) (len - actualStart)
      in take (nat actualStart) xs @ drop (nat (actualStart + actualDeleteCount)) xs)"

subsection \<open>The route handlers\<close>

text \<open>
  \<open>app.post("/teas", ...)\<close>. \<open>req.body\<close> is the object that \<open>express.json()\<close> parsed
  from the request, or \<open>undefined\<close> (here \<open>None\<close>) when the request came without a
  body that the middleware parses and the middleware leaves the property unset. The first
  statement, \<open>req.body.price\<close>, reads a property of \<open>req.body\<close> and throws when that is
  \<open>undefined\<close>, before anything is assigned. Otherwise the destructuring reads the
  \<open>name\<close> and \<open>price\<close> properties, and \<open>nextId++\<close> gives the old value of the counter.
\<close>

definition post_teas ::
  "'v store \<Rightarrow> 'v js_object option \<Rightarrow> 'v store \<times> 'v response" where
  "post_teas s req_body =
     (case req_body of
        None \<Rightarrow> (s, uncaught TypeError)
      | Some b \<Rightarrow>
          (let newTea = \<lparr>id' = nextId s, name = b ''name'', price = b ''price''\<rparr>
           in (\<lparr>teaData = teaData s @ [newTea], nextId = nextId s + 1\<rparr>,
               send 201 (Tea newTea))))"

text \<open>\<open>app.get("/teas", ...)\<close>\<close>

definition get_teas :: "'v store \<Rightarrow> 'v store \<times> 'v response" where
  "get_teas s = (s, send 200 (Teas (teaData s)))"

text \<open>\<open>app.get("/teas/:id", ...)\<close>\<close>

definition get_teas_id :: "'v store \<Rightarrow> js_string \<Rightarrow> 'v store \<times> 'v response" where
  "get_teas_id s params_id =
     (case find (\<lambda>t. strict_equals (id' t) (parseInt params_id)) (teaData s) of
        None \<Rightarrow> (s, send 404 (Text ''tea not found ''))
      | Some tea \<Rightarrow> (s, send 200 (Tea tea)))"

text \<open>
  \<open>app.put("/teas/:id", ...)\<close>: the object that \<open>find\<close> returned is assigned to in
  place, so the element in its slot changes. The body is read only after the 404
  return; destructuring \<open>undefined\<close> throws, before either property is assigned.
\<close>

definition put_teas_id ::
  "'v store \<Rightarrow> js_string \<Rightarrow> 'v js_object option \<Rightarrow> 'v store \<times> 'v response" where
  "put_teas_id s params_id req_body =
     (case first_slot (\<lambda>t. strict_equals (id' t) (parseInt params_id)) (teaData s) of
        None \<Rightarrow> (s, send 404 (Text ''tea not found ''))
      | Some slot \<Rightarrow>
          (case req_body of
             None \<Rightarrow> (s, uncaught TypeError)
           | Some b \<Rightarrow>
               (let tea = teaData s ! slot;
                    tea1 = tea\<lparr>name := b ''name''\<rparr>;
                    tea2 = tea1\<lparr>price := b ''price''\<rparr>
                in (s\<lparr>teaData := (teaData s)[slot := tea2]\<rparr>, send 200 (Tea tea2)))))"

text \<open>\<open>app.delete("/teas/:id", ...)\<close>\<close>

definition delete_teas_id :: "'v store \<Rightarrow> js_string \<Rightarrow> 'v store \<times> 'v response" where
  "delete_teas_id s params_id =
     (let index = findIndex (\<lambda>t. strict_equals (id' t) (parseInt params_id)) (teaData s)
      in if index = - 1 then (s, send 404 (Text ''tea not found''))
         else (s\<lparr>teaData := splice' (teaData s) index 1\<rparr>, send 204 (Text ''deleted '')))"

subsection \<open>Requests and runs\<close>

text \<open>
  The five routes as a request type, the dispatch to the handlers, and a run of the
  server over a sequence of requests, with the responses in order.
\<close>

datatype 'v request =
  Post "'v js_object option"
| GetAll
| Get js_string
| Put js_string "'v js_object option"
| Delete js_string

fun handle :: "'v store \<Rightarrow> 'v request \<Rightarrow> 'v store \<times> 'v response" where
  "handle s (Post b) = post_teas s b"
| "handle s GetAll = get_teas s"
| "handle s (Get i) = get_teas_id s i"
| "handle s (Put i b) = put_teas_id s i b"
| "handle s (Delete i) = delete_teas_id s i"

fun run :: "'v store \<Rightarrow> 'v request list \<Rightarrow> 'v store \<times> 'v response list" where
  "run s [] = (s, [])"
| "run s (r # rs) =
     (case handle s r of (s1, out) \<Rightarrow>
        (case run s1 rs of (s2, outs) \<Rightarrow> (s2, out # outs)))"

text \<open>
  The ids of the records that a sequence of responses reports as created: a 201
  response carries the new record.
\<close>

fun created :: "'v response list \<Rightarrow> int list" where
  "created [] = []"
| "created (out # outs) =
     (case body out of
        Tea t \<Rightarrow> (if status out = 201 then id' t # created outs else created outs)
      | _ \<Rightarrow> created outs)"

text \<open>
  The store invariant, over the store and the ids created so far: the ids in the array
  are pairwise different, each of them was created, and the counter is above every id
  created.
\<close>

definition store_inv :: "'v store \<Rightarrow> int list \<Rightarrow> bool" where
  "store_inv s ids \<longleftrightarrow>
     distinct (map id' (teaData s)) \<and>
     (\<forall>t \<in> set (teaData s). id' t \<in> set ids) \<and>
     (\<forall>i \<in> set ids. i < nextId s)"

text \<open>
  A path parameter that is an integer, as the interface describes it: an optional
  sign and then decimal digits only.
\<close>

definition is_integer_string :: "js_string \<Rightarrow> bool" where
  "is_integer_string cs =
     (let ds = (if cs \<noteq> [] \<and> (hd cs = 43 \<or> hd cs = 45) then tl cs else cs)
      in ds \<noteq> [] \<and> list_all (is_radix_digit 10) ds)"

text \<open>
  The number of \<open>POST /teas\<close> requests that come with a body in a sequence of requests.
\<close>

fun posts :: "'v request list \<Rightarrow> nat" where
  "posts [] = 0"
| "posts (Post (Some b) # rs) = Suc (posts rs)"
| "posts (r # rs) = posts rs"

subsection \<open>Example data\<close>

text \<open>
  The request bodies of the worked scenario, and a body with neither field.
\<close>

definition green_tea :: "json js_object" where
  "green_tea = [''name'' \<mapsto> JString ''Green Tea'', ''price'' \<mapsto> JNumber 100]"

definition black_tea :: "json js_object" where
  "black_tea = [''name'' \<mapsto> JString ''Black Tea'', ''price'' \<mapsto> JNumber 80]"

definition green_tea_updated :: "json js_object" where
  "green_tea_updated =
     [''name'' \<mapsto> JString ''Green Tea Updated'', ''price'' \<mapsto> JNumber 120]"

definition empty_body :: "json js_object" where
  "empty_body = Map.empty"

text \<open>The store after \<open>POST /teas\<close> with the first two bodies.\<close>

definition two_teas :: "json store" where
  "two_teas =
     \<lparr>teaData =
        [\<lparr>id' = 1, name = Some (JString ''Green Tea''), price = Some (JNumber 100)\<rparr>,
         \<lparr>id' = 2, name = Some (JString ''Black Tea''), price = Some (JNumber 80)\<rparr>],
      nextId = 3\<rparr>"

section \<open>Array methods and handlers, case by case\<close>

lemma first_slot_None: "first_slot P xs = None \<longleftrightarrow> (\<forall>x \<in> set xs. \<not> P x)"
  by (induction xs) auto

lemma first_slot_Some:
  "first_slot P xs = Some i \<Longrightarrow>
     i < length xs \<and> P (xs ! i) \<and> (\<forall>x \<in> set (take i xs). \<not> P x)"
proof (induction xs arbitrary: i)
  case Nil
  then show ?case by simp
next
  case (Cons x xs)
  show ?case
  proof (cases "P x")
    case True
    with Cons.prems show ?thesis by simp
  next
    case False
    with Cons.prems obtain j where j: "first_slot P xs = Some j" "i = Suc j"
      by auto
    from Cons.IH [OF j(1)] False j(2) show ?thesis by simp
  qed
qed

lemma find_first_slot: "find P xs = map_option (\<lambda>i. xs ! i) (first_slot P xs)"
  by (induction xs) (auto simp: option.map_comp comp_def)

lemma splice'_one:
  "i < length xs \<Longrightarrow> splice' xs (int i) 1 = take i xs @ drop (Suc i) xs"
  by (simp add: splice'_def Let_def min_def max_def nat_add_distrib)

lemma findIndex_minus1: "findIndex P xs = - 1 \<longleftrightarrow> first_slot P xs = None"
  by (simp add: findIndex_def split: option.splits)

lemma findIndex_Some: "first_slot P xs = Some i \<Longrightarrow> findIndex P xs = int i"
  by (simp add: findIndex_def)


lemma strict_equals_NaN: "parseInt p = NaN \<Longrightarrow> strict_equals a (parseInt p) = False"
  by simp

lemma strict_equals_Integer:
  "parseInt p = Integer i \<Longrightarrow> strict_equals a (parseInt p) = (a = i)"
  by simp

lemma get_teas_id_absent:
  "\<forall>t \<in> set (teaData s). \<not> strict_equals (id' t) (parseInt p) \<Longrightarrow>
     get_teas_id s p = (s, send 404 (Text ''tea not found ''))"
  by (simp add: get_teas_id_def find_first_slot first_slot_None [THEN iffD2])

lemma put_teas_id_absent:
  "\<forall>t \<in> set (teaData s). \<not> strict_equals (id' t) (parseInt p) \<Longrightarrow>
     put_teas_id s p b = (s, send 404 (Text ''tea not found ''))"
  by (simp add: put_teas_id_def first_slot_None [THEN iffD2])

lemma delete_teas_id_absent:
  "\<forall>t \<in> set (teaData s). \<not> strict_equals (id' t) (parseInt p) \<Longrightarrow>
     delete_teas_id s p = (s, send 404 (Text ''tea not found''))"
  by (simp add: delete_teas_id_def findIndex_def first_slot_None [THEN iffD2])

lemma get_teas_id_present:
  "first_slot (\<lambda>t. strict_equals (id' t) (parseInt p)) (teaData s) = Some k \<Longrightarrow>
     get_teas_id s p = (s, send 200 (Tea (teaData s ! k)))"
  by (simp add: get_teas_id_def find_first_slot)

lemma put_teas_id_present:
  "first_slot (\<lambda>t. strict_equals (id' t) (parseInt p)) (teaData s) = Some k \<Longrightarrow>
     put_teas_id s p (Some b) =
       (s\<lparr>teaData := (teaData s)[k := (teaData s ! k)\<lparr>name := b ''name'', price := b ''price''\<rparr>]\<rparr>,
        send 200 (Tea ((teaData s ! k)\<lparr>name := b ''name'', price := b ''price''\<rparr>)))"
  by (simp add: put_teas_id_def Let_def)

lemma put_teas_id_present_no_body:
  "first_slot (\<lambda>t. strict_equals (id' t) (parseInt p)) (teaData s) = Some k \<Longrightarrow>
     put_teas_id s p None = (s, uncaught TypeError)"
  by (simp add: put_teas_id_def)

lemma delete_teas_id_present:
  assumes "first_slot (\<lambda>t. strict_equals (id' t) (parseInt p)) (teaData s) = Some k"
  shows "delete_teas_id s p =
           (s\<lparr>teaData := take k (teaData s) @ drop (Suc k) (teaData s)\<rparr>,
            send 204 (Text ''deleted ''))"
proof -
  from first_slot_Some [OF assms] have k: "k < length (teaData s)" by simp
  show ?thesis
    by (simp add: delete_teas_id_def Let_def findIndex_Some [OF assms] splice'_one [OF k])
qed

lemma first_slot_cases:
  obtains "first_slot P xs = None" "\<forall>x \<in> set xs. \<not> P x"
  | k where "first_slot P xs = Some k" "k < length xs" "P (xs ! k)"
      "\<forall>x \<in> set (take k xs). \<not> P x"
proof (cases "first_slot P xs")
  case None
  then show ?thesis using that(1) first_slot_None [of P xs] by simp
next
  case (Some k)
  then show ?thesis using that(2) first_slot_Some [of P xs k] by simp
qed

subsection \<open>The invariant, step by step\<close>

lemma post_teas_no_body: "post_teas s None = (s, uncaught TypeError)"
  by (simp add: post_teas_def)

lemma created_single_post: "created [snd (post_teas s (Some b))] = [nextId s]"
  by (simp add: post_teas_def send_def Let_def)

lemma created_single_post_no_body: "created [snd (post_teas s None)] = []"
  by (simp add: post_teas_def uncaught_def)

lemma fst_post_teas_no_body: "fst (post_teas s None) = s"
  by (simp add: post_teas_def)

lemma created_single_get_teas: "created [snd (get_teas s)] = []"
  by (simp add: get_teas_def send_def)

lemma created_single_get_teas_id: "created [snd (get_teas_id s p)] = []"
  by (simp add: get_teas_id_def send_def split: option.splits)

lemma created_single_put: "created [snd (put_teas_id s p b)] = []"
  by (simp add: put_teas_id_def send_def uncaught_def Let_def split: option.splits)

lemma created_single_delete: "created [snd (delete_teas_id s p)] = []"
  by (simp add: delete_teas_id_def send_def Let_def)

lemma created_Cons: "created (out # outs) = created [out] @ created outs"
  by (simp split: payload.splits)

lemma store_inv_post:
  assumes "store_inv s ids"
  shows "store_inv (fst (post_teas s (Some b))) (ids @ [nextId s])"
proof -
  from assms have fresh: "nextId s \<notin> id' ` set (teaData s)"
    by (auto simp: store_inv_def)
  with assms show ?thesis
    by (auto simp: store_inv_def post_teas_def Let_def)
qed

lemma store_inv_get_teas: "store_inv s ids \<Longrightarrow> store_inv (fst (get_teas s)) ids"
  by (simp add: get_teas_def)

lemma store_inv_get_teas_id: "store_inv s ids \<Longrightarrow> store_inv (fst (get_teas_id s p)) ids"
  by (simp add: get_teas_id_def split: option.splits)

lemma map_id'_update:
  "k < length xs \<Longrightarrow> map id' (xs[k := (xs ! k)\<lparr>name := n, price := q\<rparr>]) = map id' xs"
  by (simp add: list_eq_iff_nth_eq nth_list_update)

lemma store_inv_put:
  assumes "store_inv s ids"
  shows "store_inv (fst (put_teas_id s p b)) ids"
proof (cases rule: first_slot_cases [of "\<lambda>t. strict_equals (id' t) (parseInt p)" "teaData s"])
  case 1
  then show ?thesis using assms by (simp add: put_teas_id_absent)
next
  case (2 k)
  show ?thesis
  proof (cases b)
    case None
    with assms show ?thesis
      by (simp add: put_teas_id_present_no_body [OF 2(1)])
  next
    case (Some c)
    let ?t = "(teaData s ! k)\<lparr>name := c ''name'', price := c ''price''\<rparr>"
    have ids: "map id' ((teaData s)[k := ?t]) = map id' (teaData s)"
      using 2(2) by (rule map_id'_update)
    have "set ((teaData s)[k := ?t]) \<subseteq> insert ?t (set (teaData s))"
      by (rule set_update_subset_insert)
    moreover have "id' ?t \<in> set ids"
      using assms 2(2) by (simp add: store_inv_def)
    ultimately have "\<forall>t \<in> set ((teaData s)[k := ?t]). id' t \<in> set ids"
      using assms by (auto simp: store_inv_def)
    with assms ids Some show ?thesis
      by (simp add: put_teas_id_present [OF 2(1)] store_inv_def)
  qed
qed

lemma store_inv_delete:
  assumes "store_inv s ids"
  shows "store_inv (fst (delete_teas_id s p)) ids"
proof (cases rule: first_slot_cases [of "\<lambda>t. strict_equals (id' t) (parseInt p)" "teaData s"])
  case 1
  then show ?thesis using assms by (simp add: delete_teas_id_absent)
next
  case (2 k)
  let ?xs = "teaData s"
  have split: "?xs = take k ?xs @ ?xs ! k # drop (Suc k) ?xs"
    using 2(2) by (simp add: id_take_nth_drop)
  from assms have "distinct (map id' ?xs)" by (simp add: store_inv_def)
  then have "distinct (map id' (take k ?xs @ ?xs ! k # drop (Suc k) ?xs))"
    using split by simp
  then have d: "distinct (map id' (take k ?xs @ drop (Suc k) ?xs))"
    by auto
  have "set (take k ?xs @ drop (Suc k) ?xs) \<subseteq> set ?xs"
    using set_take_subset [of k ?xs] set_drop_subset [of "Suc k" ?xs] by auto
  with assms have "\<forall>t \<in> set (take k ?xs @ drop (Suc k) ?xs). id' t \<in> set ids"
    by (auto simp: store_inv_def)
  with assms d show ?thesis
    by (simp add: delete_teas_id_present [OF 2(1)] store_inv_def)
qed

lemma created_single_handle:
  "created [snd (handle s r)] = (case r of Post (Some b) \<Rightarrow> [nextId s] | _ \<Rightarrow> [])"
proof (cases r)
  case (Post b)
  then show ?thesis
    by (cases b)
       (simp_all add: created_single_post created_single_post_no_body del: created.simps)
qed (simp_all add: created_single_get_teas created_single_get_teas_id
      created_single_put created_single_delete del: created.simps)

lemma store_inv_handle:
  assumes "store_inv s ids"
  shows "store_inv (fst (handle s r)) (ids @ created [snd (handle s r)])"
proof (cases r)
  case (Post b)
  show ?thesis
  proof (cases b)
    case None
    with Post assms show ?thesis
      by (simp add: created_single_post_no_body fst_post_teas_no_body del: created.simps)
  next
    case (Some c)
    with Post assms show ?thesis
      by (simp add: created_single_post store_inv_post del: created.simps)
  qed
qed (use assms in \<open>simp_all add: created_single_get_teas created_single_get_teas_id
      created_single_put created_single_delete store_inv_get_teas
      store_inv_get_teas_id store_inv_put store_inv_delete del: created.simps\<close>)

lemma run_Cons:
  "run s (r # rs) =
     (fst (run (fst (handle s r)) rs), snd (handle s r) # snd (run (fst (handle s r)) rs))"
  by (simp split: prod.splits)

lemma store_inv_run:
  "store_inv s ids \<Longrightarrow> store_inv (fst (run s rs)) (ids @ created (snd (run s rs)))"
proof (induction rs arbitrary: s ids)
  case Nil
  then show ?case by simp
next
  case (Cons r rs)
  let ?s1 = "fst (handle s r)" and ?out = "snd (handle s r)"
  from Cons.prems have "store_inv ?s1 (ids @ created [?out])"
    by (rule store_inv_handle)
  then have "store_inv (fst (run ?s1 rs)) ((ids @ created [?out]) @ created (snd (run ?s1 rs)))"
    by (rule Cons.IH)
  then show ?case
    using created_Cons [of ?out "snd (run ?s1 rs)"] by (simp add: run_Cons del: created.simps run.simps)
qed

lemma store_inv_initial: "store_inv initial []"
  by (simp add: store_inv_def initial_def)


lemma nextId_handle:
  "nextId (fst (handle s r)) = nextId s + int (length (created [snd (handle s r)]))"
proof (cases r)
  case (Post b)
  show ?thesis
  proof (cases b)
    case None
    with Post show ?thesis
      by (simp add: created_single_post_no_body fst_post_teas_no_body del: created.simps)
  next
    case (Some c)
    with Post show ?thesis
      by (simp add: created_single_post del: created.simps) (simp add: post_teas_def Let_def)
  qed
next
  case GetAll
  then show ?thesis
    by (simp add: created_single_get_teas del: created.simps) (simp add: get_teas_def)
next
  case (Get p)
  then show ?thesis
    by (simp add: created_single_get_teas_id del: created.simps)
       (simp add: get_teas_id_def split: option.splits)
next
  case (Put p b)
  then show ?thesis
    by (simp add: created_single_put del: created.simps)
       (simp add: put_teas_id_def Let_def split: option.splits)
next
  case (Delete p)
  then show ?thesis
    by (simp add: created_single_delete del: created.simps)
       (simp add: delete_teas_id_def Let_def)
qed

lemma created_run:
  "created (snd (run s rs)) = [nextId s .. nextId (fst (run s rs)) - 1] \<and>
   nextId s \<le> nextId (fst (run s rs))"
proof (induction rs arbitrary: s)
  case Nil
  then show ?case by simp
next
  case (Cons r rs)
  let ?s1 = "fst (handle s r)" and ?out = "snd (handle s r)"
  let ?s2 = "fst (run ?s1 rs)"
  have IH: "created (snd (run ?s1 rs)) = [nextId ?s1 .. nextId ?s2 - 1]"
    "nextId ?s1 \<le> nextId ?s2"
    using Cons.IH [of ?s1] by simp_all
  have step: "created [?out] = (case r of Post (Some b) \<Rightarrow> [nextId s] | _ \<Rightarrow> [])"
    by (rule created_single_handle)
  have next1: "nextId ?s1 = nextId s + int (length (created [?out]))"
    by (rule nextId_handle)
  have run: "created (snd (run s (r # rs))) = created [?out] @ created (snd (run ?s1 rs))"
    using created_Cons [of ?out "snd (run ?s1 rs)"] by (simp add: run_Cons del: created.simps run.simps)
  have fin: "fst (run s (r # rs)) = ?s2"
    by (simp add: run_Cons del: run.simps)
  show ?case
  proof (cases "\<exists>b. r = Post (Some b)")
    case True
    then have c: "created [?out] = [nextId s]" using step by auto
    with next1 have n: "nextId ?s1 = nextId s + 1" by simp
    from IH(2) n have le: "nextId s \<le> nextId ?s2 - 1" by simp
    have "[nextId s .. nextId ?s2 - 1] = nextId s # [nextId s + 1 .. nextId ?s2 - 1]"
      using le by (rule upto_rec1)
    with run c IH(1) n fin IH(2) show ?thesis by simp
  next
    case False
    then have c: "created [?out] = []" using step
      by (cases r) (simp_all split: option.splits)
    with next1 have n: "nextId ?s1 = nextId s" by simp
    with run c IH fin show ?thesis by simp
  qed
qed

lemma nextId_run_posts:
  "nextId (fst (run s (map (\<lambda>b. Post (Some b)) bs))) = nextId s + int (length bs)"
proof (induction bs arbitrary: s)
  case Nil
  then show ?case by simp
next
  case (Cons b bs)
  have "nextId (fst (post_teas s (Some b))) = nextId s + 1"
    by (simp add: post_teas_def Let_def)
  with Cons.IH [of "fst (post_teas s (Some b))"] show ?case
    by (simp add: run_Cons del: run.simps)
qed

lemma sorted_upto_less: "sorted_wrt (<) [i..j]"
  using sorted_wrt_upto by simp

section \<open>Identifiers and the store invariant\<close>

text \<open>
  Claim C1. From the initial store, the records returned by a sequence of \<open>POST /teas\<close>
  requests with the bodies \<open>bs\<close> have the ids 1, 2, 3, ... in this order; the ids
  created along any sequence of requests, with or without bodies, are strictly increasing; and the store invariant (the ids in \<open>teaData\<close>
  are pairwise different, and \<open>nextId\<close> is above every id ever created, whether its
  record is still in the store or was deleted) holds initially, is preserved by every
  request, and so holds after every sequence of requests.
\<close>

theorem created_ids_and_store_inv:
  "created (snd (run initial (map (\<lambda>b. Post (Some b)) bs))) = [1 .. int (length bs)] \<and>
   sorted_wrt (<) (created (snd (run initial rs))) \<and>
   store_inv initial [] \<and>
   (store_inv s ids \<longrightarrow> store_inv (fst (handle s r)) (ids @ created [snd (handle s r)])) \<and>
   store_inv (fst (run initial rs)) (created (snd (run initial rs)))"
proof -
  have a: "created (snd (run initial (map (\<lambda>b. Post (Some b)) bs))) = [1 .. int (length bs)]"
    using created_run [of initial "map (\<lambda>b. Post (Some b)) bs"]
      nextId_run_posts [of initial bs]
    by (simp add: initial_def)
  have b: "sorted_wrt (<) (created (snd (run initial rs)))"
    using created_run [of initial rs] by (simp add: sorted_upto_less)
  have e: "store_inv (fst (run initial rs)) (created (snd (run initial rs)))"
    using store_inv_run [OF store_inv_initial, of rs] by simp
  from a b e store_inv_initial store_inv_handle show ?thesis by blast
qed

lemma two_teas_run:
  "fst (run initial [Post (Some green_tea), Post (Some black_tea)]) = two_teas"
  by (simp add: post_teas_def Let_def initial_def two_teas_def green_tea_def black_tea_def)

theorem created_ids_and_store_inv_witness:
  "store_inv two_teas [1, 2] \<and>
   store_inv (fst (handle two_teas (Delete (units ''1'')))) [1, 2] \<and>
   store_inv (fst (handle two_teas (Post (Some empty_body)))) [1, 2, 3]"
proof -
  have h: "store_inv two_teas [1, 2]"
    by (simp add: store_inv_def two_teas_def)
  have d: "created [snd (handle two_teas (Delete (units ''1'')))] = []"
    by (simp add: created_single_delete del: created.simps)
  have p: "created [snd (handle two_teas (Post (Some empty_body)))] = [3]"
    by (simp add: created_single_post two_teas_def del: created.simps)
  have "store_inv (fst (handle two_teas (Delete (units ''1''))))
          ([1, 2] @ created [snd (handle two_teas (Delete (units ''1'')))])"
    using h created_ids_and_store_inv [of "[]" "[]" two_teas "[1, 2]" "Delete (units ''1'')"] by blast
  moreover have "store_inv (fst (handle two_teas (Post (Some empty_body))))
          ([1, 2] @ created [snd (handle two_teas (Post (Some empty_body)))])"
    using h created_ids_and_store_inv [of "[]" "[]" two_teas "[1, 2]" "Post (Some empty_body)"] by blast
  ultimately show ?thesis
    using h by (simp only: d p append.simps simp_thms)
qed

section \<open>Create, then read\<close>

lemma find_append_absent: "\<forall>x \<in> set xs. \<not> P x \<Longrightarrow> find P (xs @ ys) = find P ys"
  by (induction xs) auto

lemma post_teas_eq:
  "post_teas s (Some b) =
     (\<lparr>teaData = teaData s @ [\<lparr>id' = nextId s, name = b ''name'', price = b ''price''\<rparr>],
       nextId = nextId s + 1\<rparr>,
      \<lparr>status = 201,
       body = Tea \<lparr>id' = nextId s, name = b ''name'', price = b ''price''\<rparr>\<rparr>)"
  by (simp add: post_teas_def Let_def send_def)

lemma store_inv_below:
  assumes "store_inv s ids" and "t \<in> set (teaData s)"
  shows "id' t < nextId s"
proof -
  from assms have "id' t \<in> set ids" by (simp add: store_inv_def)
  with assms(1) show ?thesis by (simp add: store_inv_def)
qed

text \<open>
  Claim C2. In a store that satisfies the invariant, after \<open>POST /teas\<close> with a body
  whose name is \<open>n\<close> and whose price is \<open>p\<close>, \<open>GET /teas/:id\<close> with a path that
  \<open>parseInt\<close> reads as the id of the returned record answers 200 with the record
  \<open>{id: returned.id, name: n, price: p}\<close>.
\<close>

theorem create_then_get:
  assumes inv: "store_inv s ids"
    and create: "post_teas s (Some b) = (s1, out)"
    and returned: "body out = Tea returned"
    and path: "parseInt p = Integer (id' returned)"
  shows "get_teas_id s1 p =
           (s1, \<lparr>status = 200,
                 body = Tea \<lparr>id' = id' returned, name = b ''name'', price = b ''price''\<rparr>\<rparr>)"
proof -
  let ?new = "\<lparr>id' = nextId s, name = b ''name'', price = b ''price''\<rparr>"
  from create have s1: "teaData s1 = teaData s @ [?new]"
    and out: "out = \<lparr>status = 201, body = Tea ?new\<rparr>"
    by (auto simp: post_teas_eq)
  from out returned have r: "returned = ?new" by simp
  then have i: "id' returned = nextId s" by simp
  have "\<forall>t \<in> set (teaData s). id' t \<noteq> nextId s"
    using store_inv_below [OF inv] by fastforce
  then have "\<forall>t \<in> set (teaData s). \<not> strict_equals (id' t) (parseInt p)"
    using path i by simp
  then have "find (\<lambda>t. strict_equals (id' t) (parseInt p)) (teaData s1) =
      find (\<lambda>t. strict_equals (id' t) (parseInt p)) [?new]"
    unfolding s1 by (rule find_append_absent)
  also have "\<dots> = Some ?new"
    using path i by simp
  finally show ?thesis
    using i by (simp add: get_teas_id_def send_def)
qed

theorem create_then_get_witness:
  "store_inv two_teas [1, 2] \<and>
   post_teas two_teas (Some green_tea_updated) =
     (\<lparr>teaData = teaData two_teas @
         [\<lparr>id' = 3, name = Some (JString ''Green Tea Updated''), price = Some (JNumber 120)\<rparr>],
       nextId = 4\<rparr>,
      \<lparr>status = 201,
       body = Tea \<lparr>id' = 3, name = Some (JString ''Green Tea Updated''),
         price = Some (JNumber 120)\<rparr>\<rparr>) \<and>
   parseInt (units ''3'') = Integer 3 \<and>
   get_teas_id
     \<lparr>teaData = teaData two_teas @
        [\<lparr>id' = 3, name = Some (JString ''Green Tea Updated''), price = Some (JNumber 120)\<rparr>],
      nextId = 4\<rparr> (units ''3'') =
     (\<lparr>teaData = teaData two_teas @
         [\<lparr>id' = 3, name = Some (JString ''Green Tea Updated''), price = Some (JNumber 120)\<rparr>],
       nextId = 4\<rparr>,
      \<lparr>status = 200,
       body = Tea \<lparr>id' = 3, name = Some (JString ''Green Tea Updated''),
         price = Some (JNumber 120)\<rparr>\<rparr>)"
proof -
  let ?t = "\<lparr>id' = 3, name = Some (JString ''Green Tea Updated''),
    price = Some (JNumber 120)\<rparr>"
  let ?s1 = "\<lparr>teaData = teaData two_teas @ [?t], nextId = 4\<rparr>"
  let ?out = "\<lparr>status = 201, body = Tea ?t\<rparr>"
  have h1: "store_inv two_teas [1, 2]"
    by (simp add: store_inv_def two_teas_def)
  have h2: "post_teas two_teas (Some green_tea_updated) = (?s1, ?out)"
    by (simp add: post_teas_eq two_teas_def green_tea_updated_def)
  have h3: "body ?out = Tea ?t"
    by simp
  have h4: "parseInt (units ''3'') = Integer (id' ?t)"
    by (simp add: parseInt_def units_def is_white_space_def is_radix_digit_def digit_value_def)
  from create_then_get [OF h1 h2 h3 h4] h1 h2 h4 show ?thesis
    by (simp add: green_tea_updated_def)
qed

section \<open>Requests for an id that no record has\<close>

lemma absent_id:
  assumes "parseInt p = Integer i" and "i \<notin> id' ` set (teaData s)"
  shows "\<forall>t \<in> set (teaData s). \<not> strict_equals (id' t) (parseInt p)"
  using assms by auto

text \<open>
  Claim C3. When the path is read as an id that no record of the store has,
  \<open>PUT /teas/:id\<close>, with any body or none, and \<open>DELETE /teas/:id\<close> answer 404 and
  return the store as it was: neither \<open>teaData\<close> nor \<open>nextId\<close> changes.
\<close>

theorem update_delete_absent:
  assumes "parseInt p = Integer i" and "i \<notin> id' ` set (teaData s)"
  shows "put_teas_id s p b = (s, \<lparr>status = 404, body = Text ''tea not found ''\<rparr>) \<and>
         delete_teas_id s p = (s, \<lparr>status = 404, body = Text ''tea not found''\<rparr>)"
  using absent_id [OF assms]
  by (simp add: put_teas_id_absent delete_teas_id_absent send_def)

lemma parseInt_7: "parseInt (units ''7'') = Integer 7"
  by (simp add: parseInt_def units_def is_white_space_def is_radix_digit_def digit_value_def)

theorem update_delete_absent_witness:
  "parseInt (units ''7'') = Integer 7 \<and> 7 \<notin> id' ` set (teaData two_teas) \<and>
   put_teas_id two_teas (units ''7'') (Some green_tea_updated) =
     (two_teas, \<lparr>status = 404, body = Text ''tea not found ''\<rparr>) \<and>
   delete_teas_id two_teas (units ''7'') =
     (two_teas, \<lparr>status = 404, body = Text ''tea not found''\<rparr>)"
proof -
  have h2: "7 \<notin> id' ` set (teaData two_teas)"
    by (simp add: two_teas_def)
  from update_delete_absent [OF parseInt_7 h2, of "Some green_tea_updated"] parseInt_7 h2
  show ?thesis by simp
qed

section \<open>Requests for the id of a record in the store\<close>

lemma present_id:
  assumes path: "parseInt p = Integer i" and present: "i \<in> id' ` set (teaData s)"
  obtains k where "first_slot (\<lambda>t. strict_equals (id' t) (parseInt p)) (teaData s) = Some k"
    and "k < length (teaData s)" and "id' (teaData s ! k) = i"
    and "i \<notin> id' ` set (take k (teaData s))"
    and "teaData s = take k (teaData s) @ teaData s ! k # drop (Suc k) (teaData s)"
proof (cases rule: first_slot_cases [of "\<lambda>t. strict_equals (id' t) (parseInt p)" "teaData s"])
  case 1
  with path present show ?thesis by auto
next
  case (2 k)
  from 2(3) path have "id' (teaData s ! k) = i" by simp
  moreover from 2(4) path have "i \<notin> id' ` set (take k (teaData s))" by auto
  moreover from 2(2) have "teaData s = take k (teaData s) @ teaData s ! k # drop (Suc k) (teaData s)"
    by (simp add: id_take_nth_drop)
  ultimately show ?thesis using that 2(1,2) by blast
qed

text \<open>
  Claim C4. \<open>DELETE /teas/:id\<close> for the id of a record in the store removes one
  element, the first record with that id, and keeps the others in their order (the
  array \<open>xs @ t # ys\<close> becomes \<open>xs @ ys\<close>); \<open>nextId\<close> stays as it was. When the ids of
  the store are pairwise different, as the store invariant says, a following
  \<open>GET /teas/:id\<close> for the same id answers 404.
\<close>

theorem delete_present:
  assumes path: "parseInt p = Integer i"
    and present: "i \<in> id' ` set (teaData s)"
  shows "\<exists>xs t ys. teaData s = xs @ t # ys \<and> id' t = i \<and> i \<notin> id' ` set xs \<and>
           fst (delete_teas_id s p) = s\<lparr>teaData := xs @ ys\<rparr> \<and>
           (distinct (map id' (teaData s)) \<longrightarrow>
              get_teas_id (fst (delete_teas_id s p)) p =
                (s\<lparr>teaData := xs @ ys\<rparr>,
                 \<lparr>status = 404, body = Text ''tea not found ''\<rparr>))"
proof -
  from path present obtain k
    where slot: "first_slot (\<lambda>t. strict_equals (id' t) (parseInt p)) (teaData s) = Some k"
      and k: "id' (teaData s ! k) = i"
      and before: "i \<notin> id' ` set (take k (teaData s))"
      and split: "teaData s = take k (teaData s) @ teaData s ! k # drop (Suc k) (teaData s)"
    by (rule present_id)
  let ?xs = "take k (teaData s)" and ?t = "teaData s ! k" and ?ys = "drop (Suc k) (teaData s)"
  let ?s' = "s\<lparr>teaData := ?xs @ ?ys\<rparr>"
  have del: "fst (delete_teas_id s p) = ?s'"
    by (simp add: delete_teas_id_present [OF slot])
  have get: "get_teas_id (fst (delete_teas_id s p)) p =
      (?s', \<lparr>status = 404, body = Text ''tea not found ''\<rparr>)"
    if unique: "distinct (map id' (teaData s))"
  proof -
    from unique have "distinct (map id' (?xs @ ?t # ?ys))"
      using split by simp
    then have "i \<notin> id' ` set (?xs @ ?ys)"
      using k by auto
    then have "\<forall>t \<in> set (teaData ?s'). \<not> strict_equals (id' t) (parseInt p)"
      using path by auto
    then have "get_teas_id ?s' p = (?s', send 404 (Text ''tea not found ''))"
      by (rule get_teas_id_absent)
    then show ?thesis
      by (simp add: del send_def)
  qed
  from split k before del get show ?thesis by blast
qed

lemma parseInt_1: "parseInt (units ''1'') = Integer 1"
  by (simp add: parseInt_def units_def is_white_space_def is_radix_digit_def digit_value_def)

lemma two_teas_has_1: "1 \<in> id' ` set (teaData two_teas)"
  by (simp add: two_teas_def)

lemma delete_1_two_teas:
  "delete_teas_id two_teas (units ''1'') =
     (\<lparr>teaData =
         [\<lparr>id' = 2, name = Some (JString ''Black Tea''), price = Some (JNumber 80)\<rparr>],
       nextId = 3\<rparr>,
      \<lparr>status = 204, body = Text []\<rparr>)"
  by (simp add: delete_teas_id_def findIndex_def splice'_def parseInt_1 two_teas_def send_def)

theorem delete_present_witness:
  "parseInt (units ''1'') = Integer 1 \<and>
   1 \<in> id' ` set (teaData two_teas) \<and>
   distinct (map id' (teaData two_teas)) \<and>
   fst (delete_teas_id two_teas (units ''1'')) =
     \<lparr>teaData =
        [\<lparr>id' = 2, name = Some (JString ''Black Tea''), price = Some (JNumber 80)\<rparr>],
      nextId = 3\<rparr> \<and>
   get_teas_id (fst (delete_teas_id two_teas (units ''1''))) (units ''1'') =
     (fst (delete_teas_id two_teas (units ''1'')),
      \<lparr>status = 404, body = Text ''tea not found ''\<rparr>)"
proof -
  have h: "distinct (map id' (teaData two_teas))"
    by (simp add: two_teas_def)
  have e: "fst (delete_teas_id two_teas (units ''1'')) =
     \<lparr>teaData =
        [\<lparr>id' = 2, name = Some (JString ''Black Tea''), price = Some (JNumber 80)\<rparr>],
      nextId = 3\<rparr>"
    by (simp add: delete_1_two_teas)
  from delete_present [OF parseInt_1 two_teas_has_1] h
  have "get_teas_id (fst (delete_teas_id two_teas (units ''1''))) (units ''1'') =
     (fst (delete_teas_id two_teas (units ''1'')),
      \<lparr>status = 404, body = Text ''tea not found ''\<rparr>)"
    by metis
  with parseInt_1 two_teas_has_1 h e show ?thesis by blast
qed

text \<open>
  Claim C5. \<open>PUT /teas/:id\<close> for the id of a record in the store replaces, in the
  first record with that id, the name and the price by the \<open>name\<close> and \<open>price\<close>
  properties of the body, both of them; the record keeps its id and its place, every
  other record and \<open>nextId\<close> stay as they were, and the response is 200 with the
  changed record.
\<close>

theorem update_present:
  assumes path: "parseInt p = Integer i"
    and present: "i \<in> id' ` set (teaData s)"
  shows "\<exists>xs t ys. teaData s = xs @ t # ys \<and> id' t = i \<and> i \<notin> id' ` set xs \<and>
           put_teas_id s p (Some b) =
             (s\<lparr>teaData := xs @ \<lparr>id' = i, name = b ''name'', price = b ''price''\<rparr> # ys\<rparr>,
              \<lparr>status = 200,
               body = Tea \<lparr>id' = i, name = b ''name'', price = b ''price''\<rparr>\<rparr>)"
proof -
  from path present obtain k
    where slot: "first_slot (\<lambda>t. strict_equals (id' t) (parseInt p)) (teaData s) = Some k"
      and len: "k < length (teaData s)"
      and k: "id' (teaData s ! k) = i"
      and before: "i \<notin> id' ` set (take k (teaData s))"
      and split: "teaData s = take k (teaData s) @ teaData s ! k # drop (Suc k) (teaData s)"
    by (rule present_id)
  let ?xs = "take k (teaData s)" and ?t = "teaData s ! k" and ?ys = "drop (Suc k) (teaData s)"
  let ?new = "\<lparr>id' = i, name = b ''name'', price = b ''price''\<rparr>"
  have new: "?t\<lparr>name := b ''name'', price := b ''price''\<rparr> = ?new"
    using k by simp
  have upd: "(teaData s)[k := ?new] = ?xs @ ?new # ?ys"
    using len by (rule upd_conv_take_nth_drop)
  have "put_teas_id s p (Some b) =
      (s\<lparr>teaData := ?xs @ ?new # ?ys\<rparr>, \<lparr>status = 200, body = Tea ?new\<rparr>)"
    by (simp add: put_teas_id_present [OF slot] new upd send_def)
  with split k before show ?thesis by blast
qed

lemma put_1_two_teas:
  "put_teas_id two_teas (units ''1'') (Some green_tea_updated) =
     (\<lparr>teaData =
         [\<lparr>id' = 1, name = Some (JString ''Green Tea Updated''), price = Some (JNumber 120)\<rparr>,
          \<lparr>id' = 2, name = Some (JString ''Black Tea''), price = Some (JNumber 80)\<rparr>],
       nextId = 3\<rparr>,
      \<lparr>status = 200,
       body = Tea \<lparr>id' = 1, name = Some (JString ''Green Tea Updated''),
         price = Some (JNumber 120)\<rparr>\<rparr>)"
  by (simp add: put_teas_id_def parseInt_1 two_teas_def green_tea_updated_def send_def Let_def)

theorem update_present_witness:
  "parseInt (units ''1'') = Integer 1 \<and>
   1 \<in> id' ` set (teaData two_teas) \<and>
   snd (put_teas_id two_teas (units ''1'') (Some green_tea_updated)) =
     \<lparr>status = 200,
      body = Tea \<lparr>id' = 1, name = Some (JString ''Green Tea Updated''),
        price = Some (JNumber 120)\<rparr>\<rparr> \<and>
   (\<exists>xs t ys. teaData two_teas = xs @ t # ys \<and> id' t = 1 \<and> 1 \<notin> id' ` set xs \<and>
      put_teas_id two_teas (units ''1'') (Some green_tea_updated) =
        (two_teas\<lparr>teaData := xs @
            \<lparr>id' = 1, name = green_tea_updated ''name'',
              price = green_tea_updated ''price''\<rparr> # ys\<rparr>,
         \<lparr>status = 200,
          body = Tea \<lparr>id' = 1, name = green_tea_updated ''name'',
            price = green_tea_updated ''price''\<rparr>\<rparr>))"
proof -
  have e: "snd (put_teas_id two_teas (units ''1'') (Some green_tea_updated)) =
     \<lparr>status = 200,
      body = Tea \<lparr>id' = 1, name = Some (JString ''Green Tea Updated''),
        price = Some (JNumber 120)\<rparr>\<rparr>"
    by (simp add: put_1_two_teas)
  from update_present [OF parseInt_1 two_teas_has_1, of green_tea_updated]
    parseInt_1 two_teas_has_1 e
  show ?thesis by blast
qed

section \<open>The answer to a successful delete\<close>

text \<open>
  Claim C7. \<open>DELETE /teas/:id\<close> for the id of a record in the store answers with
  status 204 and an empty body: the handler passes the string \<open>"deleted "\<close> to
  \<open>send\<close>, which drops the body of a 204 response.
\<close>

theorem delete_no_content:
  assumes path: "parseInt p = Integer i"
    and present: "i \<in> id' ` set (teaData s)"
  shows "snd (delete_teas_id s p) = send 204 (Text ''deleted '') \<and>
         snd (delete_teas_id s p) = \<lparr>status = 204, body = Text []\<rparr>"
proof -
  from path present obtain k
    where slot: "first_slot (\<lambda>t. strict_equals (id' t) (parseInt p)) (teaData s) = Some k"
    by (rule present_id)
  show ?thesis
    by (simp add: delete_teas_id_present [OF slot] send_def)
qed

theorem delete_no_content_witness:
  "parseInt (units ''1'') = Integer 1 \<and>
   1 \<in> id' ` set (teaData two_teas) \<and>
   snd (delete_teas_id two_teas (units ''1'')) = \<lparr>status = 204, body = Text []\<rparr>"
  using delete_no_content [OF parseInt_1 two_teas_has_1] parseInt_1 two_teas_has_1
  by blast

section \<open>Listing\<close>

lemma run_append:
  "run s (rs @ rs') =
     (fst (run (fst (run s rs)) rs'), snd (run s rs) @ snd (run (fst (run s rs)) rs'))"
proof (induction rs arbitrary: s)
  case Nil
  then show ?case by simp
next
  case (Cons r rs)
  show ?case
    using Cons.IH [of "fst (handle s r)"]
    by (simp add: run_Cons del: run.simps)
qed

lemma run_posts:
  "run s (map (\<lambda>b. Post (Some b)) bs) =
     (\<lparr>teaData = teaData s @
         map (\<lambda>k. \<lparr>id' = nextId s + int k, name = (bs ! k) ''name'',
           price = (bs ! k) ''price''\<rparr>) [0..<length bs],
       nextId = nextId s + int (length bs)\<rparr>,
      map (\<lambda>k. \<lparr>status = 201,
          body = Tea \<lparr>id' = nextId s + int k, name = (bs ! k) ''name'',
            price = (bs ! k) ''price''\<rparr>\<rparr>) [0..<length bs])"
proof (induction bs rule: rev_induct)
  case Nil
  then show ?case by simp
next
  case (snoc b bs)
  have one: "run s' [Post (Some b)] =
      (fst (post_teas s' (Some b)), [snd (post_teas s' (Some b))])" for s' :: "'a store"
    by (simp add: run_Cons del: run.simps) simp
  show ?case
    by (simp add: run_append snoc.IH one post_teas_eq nth_append del: run.simps cong: map_cong)
qed


lemma length_created_run: "length (created (snd (run s rs))) = posts rs"
proof (induction rs arbitrary: s)
  case Nil
  then show ?case by simp
next
  case (Cons r rs)
  have "created (snd (run s (r # rs))) =
      created [snd (handle s r)] @ created (snd (run (fst (handle s r)) rs))"
    using created_Cons [of "snd (handle s r)" "snd (run (fst (handle s r)) rs)"]
    by (simp add: run_Cons del: created.simps run.simps)
  moreover have "length (created [snd (handle s r)]) + posts rs = posts (r # rs)"
  proof (cases r)
    case (Post b)
    then show ?thesis
      by (cases b)
         (simp_all add: created_single_post created_single_post_no_body del: created.simps)
  qed (simp_all add: created_single_get_teas created_single_get_teas_id
        created_single_put created_single_delete del: created.simps)
  ultimately show ?case
    using Cons.IH [of "fst (handle s r)"] by simp
qed

lemma ids_put: "map id' (teaData (fst (put_teas_id s p b))) = map id' (teaData s)"
proof (cases rule: first_slot_cases [of "\<lambda>t. strict_equals (id' t) (parseInt p)" "teaData s"])
  case 1
  then show ?thesis by (simp add: put_teas_id_absent)
next
  case (2 k)
  then show ?thesis
    by (cases b)
       (simp_all add: put_teas_id_present [OF 2(1)] put_teas_id_present_no_body [OF 2(1)]
          map_id'_update)
qed

lemma ids_handle_no_delete:
  assumes "\<forall>p. r \<noteq> Delete p"
  shows "map id' (teaData (fst (handle s r))) = map id' (teaData s) @ created [snd (handle s r)]"
proof (cases r)
  case (Post b)
  show ?thesis
  proof (cases b)
    case None
    with Post show ?thesis
      by (simp add: created_single_post_no_body fst_post_teas_no_body del: created.simps)
  next
    case (Some c)
    with Post show ?thesis
      by (simp add: created_single_post del: created.simps) (simp add: post_teas_eq)
  qed
next
  case GetAll
  then show ?thesis
    by (simp add: created_single_get_teas del: created.simps) (simp add: get_teas_def)
next
  case (Get p)
  then show ?thesis
    by (simp add: created_single_get_teas_id del: created.simps)
       (simp add: get_teas_id_def split: option.splits)
next
  case (Put p b)
  then show ?thesis
    by (simp add: created_single_put ids_put del: created.simps)
next
  case (Delete p)
  with assms show ?thesis by simp
qed

lemma ids_run_no_delete:
  assumes "\<forall>p. Delete p \<notin> set rs"
  shows "map id' (teaData (fst (run s rs))) = map id' (teaData s) @ created (snd (run s rs))"
  using assms
proof (induction rs arbitrary: s)
  case Nil
  then show ?case by simp
next
  case (Cons r rs)
  let ?s1 = "fst (handle s r)" and ?out = "snd (handle s r)"
  from Cons.prems have r: "\<forall>p. r \<noteq> Delete p" and rs: "\<forall>p. Delete p \<notin> set rs"
    by auto
  have "created (snd (run s (r # rs))) = created [?out] @ created (snd (run ?s1 rs))"
    using created_Cons [of ?out "snd (run ?s1 rs)"]
    by (simp add: run_Cons del: created.simps run.simps)
  moreover have "fst (run s (r # rs)) = fst (run ?s1 rs)"
    by (simp add: run_Cons del: run.simps)
  ultimately show ?case
    using Cons.IH [OF rs, of ?s1] ids_handle_no_delete [OF r, of s] by simp
qed

text \<open>
  Claim C6. From the initial store, after \<open>POST /teas\<close> with the bodies
  \<open>bs\<close>, \<open>GET /teas\<close> answers 200 with exactly \<open>length bs\<close> records, the k-th of them
  made from the k-th body with the id \<open>k + 1\<close>. After any sequence of requests
  without a \<open>DELETE\<close>, the array holds as many records as there were \<open>POST\<close> requests
  with a body, in the order in which their ids were created. \<open>GET /teas\<close> returns the store as it
  was, so a second \<open>GET /teas\<close> gives the same response.
\<close>

theorem list_after_creates:
  "get_teas (fst (run initial (map (\<lambda>b. Post (Some b)) bs))) =
     (fst (run initial (map (\<lambda>b. Post (Some b)) bs)),
      \<lparr>status = 200,
       body = Teas (map (\<lambda>k. \<lparr>id' = int k + 1, name = (bs ! k) ''name'',
         price = (bs ! k) ''price''\<rparr>) [0..<length bs])\<rparr>) \<and>
   ((\<forall>p. Delete p \<notin> set rs) \<longrightarrow>
      length (teaData (fst (run initial rs))) = posts rs \<and>
      map id' (teaData (fst (run initial rs))) = created (snd (run initial rs))) \<and>
   get_teas s = (s, \<lparr>status = 200, body = Teas (teaData s)\<rparr>) \<and>
   get_teas (fst (get_teas s)) = get_teas s"
proof -
  have a: "get_teas (fst (run initial (map (\<lambda>b. Post (Some b)) bs))) =
     (fst (run initial (map (\<lambda>b. Post (Some b)) bs)),
      \<lparr>status = 200,
       body = Teas (map (\<lambda>k. \<lparr>id' = int k + 1, name = (bs ! k) ''name'',
         price = (bs ! k) ''price''\<rparr>) [0..<length bs])\<rparr>)"
    by (simp add: run_posts get_teas_def send_def initial_def add.commute del: run.simps)
  have b: "length (teaData (fst (run initial rs))) = posts rs \<and>
      map id' (teaData (fst (run initial rs))) = created (snd (run initial rs))"
    if nd: "\<forall>p. Delete p \<notin> set rs"
  proof -
    have ids: "map id' (teaData (fst (run initial rs))) = created (snd (run initial rs))"
      using ids_run_no_delete [OF nd, of initial] by (simp add: initial_def)
    have "length (map id' (teaData (fst (run initial rs)))) = posts rs"
      unfolding ids by (rule length_created_run)
    then have "length (teaData (fst (run initial rs))) = posts rs"
      by (simp only: length_map)
    with ids show ?thesis by blast
  qed
  have c: "get_teas s = (s, \<lparr>status = 200, body = Teas (teaData s)\<rparr>)"
    by (simp add: get_teas_def send_def)
  have d: "get_teas (fst (get_teas s)) = get_teas s"
    by (simp add: get_teas_def)
  from a b c d show ?thesis by blast
qed

lemma scenario_prefix:
  "run initial [Post (Some green_tea), Post (Some black_tea), GetAll,
       Put (units ''1'') (Some green_tea_updated)] =
     (\<lparr>teaData =
         [\<lparr>id' = 1, name = Some (JString ''Green Tea Updated''), price = Some (JNumber 120)\<rparr>,
          \<lparr>id' = 2, name = Some (JString ''Black Tea''), price = Some (JNumber 80)\<rparr>],
       nextId = 3\<rparr>,
      [\<lparr>status = 201,
        body = Tea \<lparr>id' = 1, name = Some (JString ''Green Tea''), price = Some (JNumber 100)\<rparr>\<rparr>,
       \<lparr>status = 201,
        body = Tea \<lparr>id' = 2, name = Some (JString ''Black Tea''), price = Some (JNumber 80)\<rparr>\<rparr>,
       \<lparr>status = 200,
        body = Teas
          [\<lparr>id' = 1, name = Some (JString ''Green Tea''), price = Some (JNumber 100)\<rparr>,
           \<lparr>id' = 2, name = Some (JString ''Black Tea''), price = Some (JNumber 80)\<rparr>]\<rparr>,
       \<lparr>status = 200,
        body = Tea \<lparr>id' = 1, name = Some (JString ''Green Tea Updated''),
          price = Some (JNumber 120)\<rparr>\<rparr>])"
  by (simp add: post_teas_eq get_teas_def put_teas_id_def parseInt_1 send_def Let_def
      initial_def green_tea_def black_tea_def green_tea_updated_def)

theorem list_after_creates_witness:
  "(\<forall>p. Delete p \<notin>
      set [Post (Some green_tea), Post (Some black_tea), GetAll,
       Put (units ''1'') (Some green_tea_updated)]) \<and>
   length (teaData (fst (run initial
      [Post (Some green_tea), Post (Some black_tea), GetAll,
       Put (units ''1'') (Some green_tea_updated)]))) = 2 \<and>
   map id' (teaData (fst (run initial
      [Post (Some green_tea), Post (Some black_tea), GetAll,
       Put (units ''1'') (Some green_tea_updated)]))) = [1, 2]"
proof -
  let ?rs = "[Post (Some green_tea), Post (Some black_tea), GetAll,
       Put (units ''1'') (Some green_tea_updated)]"
  have h: "\<forall>p. Delete p \<notin> set ?rs"
    by simp
  have c: "created (snd (run initial ?rs)) = [1, 2]"
    unfolding scenario_prefix by simp
  have n: "posts ?rs = 2"
    by simp
  from list_after_creates [of "[]" ?rs] h
  have "length (teaData (fst (run initial ?rs))) = posts ?rs \<and>
      map id' (teaData (fst (run initial ?rs))) = created (snd (run initial ?rs))"
    by blast
  with h show ?thesis
    by (simp only: c n simp_thms)
qed

section \<open>Create and the request body\<close>

text \<open>
  Claim C8 as stated does not hold for a request without a body: when \<open>req.body\<close> is
  \<open>undefined\<close> the handler throws at its first statement, the request is answered
  with status 500 and nothing is stored.
\<close>

theorem create_no_body_counterexample:
  "post_teas two_teas None = (two_teas, \<lparr>status = 500, body = ErrorPage TypeError\<rparr>) \<and>
   status (snd (post_teas two_teas None)) \<noteq> 201"
  by (simp add: post_teas_def uncaught_def)

text \<open>
  Claim C8, amended. For every store and every body that is an object, whether the
  \<open>name\<close> and \<open>price\<close> properties are present or not and whatever their values are,
  \<open>POST /teas\<close> appends the record made of the counter and the two properties as they
  are, increments the counter and answers 201 with that record; a body without either
  property gives a record whose name and price are \<open>undefined\<close>.
\<close>

theorem create_with_body_succeeds:
  "post_teas s (Some b) =
     (\<lparr>teaData = teaData s @ [\<lparr>id' = nextId s, name = b ''name'', price = b ''price''\<rparr>],
       nextId = nextId s + 1\<rparr>,
      \<lparr>status = 201,
       body = Tea \<lparr>id' = nextId s, name = b ''name'', price = b ''price''\<rparr>\<rparr>) \<and>
   post_teas s (Some Map.empty) =
     (\<lparr>teaData = teaData s @ [\<lparr>id' = nextId s, name = None, price = None\<rparr>],
       nextId = nextId s + 1\<rparr>,
      \<lparr>status = 201, body = Tea \<lparr>id' = nextId s, name = None, price = None\<rparr>\<rparr>)"
  by (simp add: post_teas_def Let_def send_def)

section \<open>The body's other properties\<close>

text \<open>
  Claim C10. \<open>POST /teas\<close> reads the \<open>name\<close> and \<open>price\<close> properties of the body and
  nothing else: two bodies that agree on them give the same store and the same
  response. In particular an \<open>id\<close> property in the body changes nothing, and the id of
  the created record is the value of \<open>nextId\<close>.
\<close>

theorem create_ignores_body_id:
  "(b ''name'' = b' ''name'' \<and> b ''price'' = b' ''price'' \<longrightarrow>
      post_teas s (Some b) = post_teas s (Some b')) \<and>
   post_teas s (Some (b(''id'' \<mapsto> v))) = post_teas s (Some b) \<and>
   body (snd (post_teas s (Some (b(''id'' \<mapsto> v))))) =
     Tea \<lparr>id' = nextId s, name = b ''name'', price = b ''price''\<rparr>"
  by (simp add: post_teas_def Let_def send_def)

theorem create_ignores_body_id_witness:
  "green_tea ''name'' = (green_tea(''id'' \<mapsto> JNumber 99)) ''name'' \<and>
   green_tea ''price'' = (green_tea(''id'' \<mapsto> JNumber 99)) ''price'' \<and>
   post_teas two_teas (Some green_tea) =
     post_teas two_teas (Some (green_tea(''id'' \<mapsto> JNumber 99))) \<and>
   body (snd (post_teas two_teas (Some (green_tea(''id'' \<mapsto> JNumber 99))))) =
     Tea \<lparr>id' = 3, name = Some (JString ''Green Tea''), price = Some (JNumber 100)\<rparr>"
proof -
  have h: "green_tea ''name'' = (green_tea(''id'' \<mapsto> JNumber 99)) ''name'' \<and>
      green_tea ''price'' = (green_tea(''id'' \<mapsto> JNumber 99)) ''price''"
    by simp
  have n: "nextId two_teas = 3" "green_tea ''name'' = Some (JString ''Green Tea'')"
    "green_tea ''price'' = Some (JNumber 100)"
    by (simp_all add: two_teas_def green_tea_def)
  from create_ignores_body_id
    [of green_tea "green_tea(''id'' \<mapsto> JNumber 99)" two_teas "JNumber 99"] h
  have "post_teas two_teas (Some green_tea) =
      post_teas two_teas (Some (green_tea(''id'' \<mapsto> JNumber 99))) \<and>
    body (snd (post_teas two_teas (Some (green_tea(''id'' \<mapsto> JNumber 99))))) =
     Tea \<lparr>id' = nextId two_teas, name = green_tea ''name'', price = green_tea ''price''\<rparr>"
    by blast
  with h show ?thesis
    by (simp only: n simp_thms)
qed

section \<open>Paths that are not integers\<close>

lemma parseInt_1abc: "parseInt (units ''1abc'') = Integer 1"
  by (simp add: parseInt_def units_def is_white_space_def is_radix_digit_def digit_value_def)

lemma parseInt_abc: "parseInt (units ''abc'') = NaN"
  by (simp add: parseInt_def units_def is_white_space_def is_radix_digit_def digit_value_def)

text \<open>
  Claim C9 as stated does not hold: the path \<open>1abc\<close> is not an integer, \<open>parseInt\<close>
  reads 1 from it, and with record 1 in the store the three routes answer 200, 200
  and 204.
\<close>

theorem non_integer_path_counterexample:
  "\<not> is_integer_string (units ''1abc'') \<and>
   status (snd (get_teas_id two_teas (units ''1abc''))) = 200 \<and>
   status (snd (put_teas_id two_teas (units ''1abc'') (Some green_tea_updated))) = 200 \<and>
   status (snd (delete_teas_id two_teas (units ''1abc''))) = 204"
proof -
  have a: "\<not> is_integer_string (units ''1abc'')"
    by (simp add: is_integer_string_def units_def is_radix_digit_def digit_value_def)
  have b: "status (snd (get_teas_id two_teas (units ''1abc''))) = 200"
    by (simp add: get_teas_id_def parseInt_1abc two_teas_def send_def)
  have c: "status (snd (put_teas_id two_teas (units ''1abc'') (Some green_tea_updated))) = 200"
    by (simp add: put_teas_id_def parseInt_1abc two_teas_def send_def Let_def)
  have d: "status (snd (delete_teas_id two_teas (units ''1abc''))) = 204"
    by (simp add: delete_teas_id_def findIndex_def parseInt_1abc two_teas_def send_def)
  from a b c d show ?thesis by blast
qed


lemma decimal_digit_iff: "is_radix_digit 10 c \<longleftrightarrow> 48 \<le> c \<and> c \<le> 57"
  by (auto simp: is_radix_digit_def digit_value_def)

lemma decimal_digit_not_white_space: "is_radix_digit 10 c \<Longrightarrow> \<not> is_white_space c"
  by (auto simp: decimal_digit_iff is_white_space_def)

lemma takeWhile_all: "list_all P xs \<Longrightarrow> takeWhile P xs = xs"
  by (induction xs) auto

lemma decimal_digits_not_hex:
  assumes "list_all (is_radix_digit 10) ds"
  shows "take 2 ds \<noteq> [48, 120] \<and> take 2 ds \<noteq> [48, 88]"
proof (cases ds)
  case Nil
  then show ?thesis by simp
next
  case (Cons d ds')
  show ?thesis
  proof (cases ds')
    case Nil
    with Cons show ?thesis by simp
  next
    case (Cons e es)
    with assms \<open>ds = d # ds'\<close> have "48 \<le> e \<and> e \<le> 57"
      by (simp add: decimal_digit_iff)
    with Cons \<open>ds = d # ds'\<close> show ?thesis by auto
  qed
qed

lemma parseInt_decimal_digits:
  assumes "ds \<noteq> []" and "list_all (is_radix_digit 10) ds"
  shows "parseInt ds = Integer (int (radix_value 10 0 ds))"
    and "parseInt (43 # ds) = Integer (int (radix_value 10 0 ds))"
    and "parseInt (45 # ds) = Integer (- int (radix_value 10 0 ds))"
proof -
  from assms obtain d ds' where ds: "ds = d # ds'" and d: "is_radix_digit 10 d"
    by (cases ds) auto
  from d have nw: "\<not> is_white_space d" by (rule decimal_digit_not_white_space)
  from d ds have ns: "hd ds \<noteq> 43" "hd ds \<noteq> 45" by (auto simp: decimal_digit_iff)
  have drop: "dropWhile is_white_space ds = ds"
    using nw ds by simp
  have sign: "\<not> is_white_space 43" "\<not> is_white_space 45"
    by (simp_all add: is_white_space_def)
  from decimal_digits_not_hex [OF assms(2)]
  have hex: "take 2 ds = [48, 120] \<longleftrightarrow> False" "take 2 ds = [48, 88] \<longleftrightarrow> False"
    by simp_all
  note all = takeWhile_all [OF assms(2)]
  show "parseInt ds = Integer (int (radix_value 10 0 ds))"
    by (simp add: parseInt_def drop Let_def ns hex all assms(1) del: take_eq_Nil)
  show "parseInt (43 # ds) = Integer (int (radix_value 10 0 ds))"
    by (simp add: parseInt_def Let_def sign hex all assms(1))
  show "parseInt (45 # ds) = Integer (- int (radix_value 10 0 ds))"
    by (simp add: parseInt_def Let_def sign hex all assms(1))
qed

lemma parseInt_integer_string:
  assumes "is_integer_string p"
  shows "parseInt p \<noteq> NaN"
proof (cases "p \<noteq> [] \<and> (hd p = 43 \<or> hd p = 45)")
  case True
  then obtain c ds where p: "p = c # ds" and c: "c = 43 \<or> c = 45"
    by (cases p) auto
  with assms have "ds \<noteq> []" "list_all (is_radix_digit 10) ds"
    by (auto simp: is_integer_string_def)
  from parseInt_decimal_digits(2,3) [OF this] p c show ?thesis by auto
next
  case False
  with assms have "p \<noteq> []" "list_all (is_radix_digit 10) p"
    by (auto simp: is_integer_string_def Let_def)
  from parseInt_decimal_digits(1) [OF this] show ?thesis by simp
qed

lemma radix_value_snoc:
  "radix_value R acc (cs @ [c]) =
     radix_value R acc cs * R + (case digit_value c of None \<Rightarrow> 0 | Some d \<Rightarrow> d)"
  by (induction cs arbitrary: acc) simp_all

lemma digits_of_nat:
  "\<exists>ds. ds \<noteq> [] \<and> list_all (is_radix_digit 10) ds \<and> radix_value 10 0 ds = n"
proof (induction n rule: less_induct)
  case (less n)
  show ?case
  proof (cases "n < 10")
    case True
    then have "list_all (is_radix_digit 10) [48 + n] \<and> radix_value 10 0 [48 + n] = n"
      by (simp add: decimal_digit_iff digit_value_def)
    then show ?thesis by blast
  next
    case False
    then have "n div 10 < n" by simp
    from less.IH [OF this] obtain ds
      where ds: "ds \<noteq> []" "list_all (is_radix_digit 10) ds" "radix_value 10 0 ds = n div 10"
      by blast
    let ?c = "48 + n mod 10"
    have c: "is_radix_digit 10 ?c" "digit_value ?c = Some (n mod 10)"
      by (simp_all add: decimal_digit_iff digit_value_def)
    have "radix_value 10 0 (ds @ [?c]) = n"
      by (simp add: radix_value_snoc ds(3) c(2))
    moreover have "list_all (is_radix_digit 10) (ds @ [?c])"
      using ds(2) c(1) by simp
    ultimately show ?thesis by blast
  qed
qed

text \<open>Every integer is what \<open>parseInt\<close> reads from some path, its decimal numeral.\<close>

lemma path_of_integer: "\<exists>p. is_integer_string p \<and> parseInt p = Integer i"
proof (cases "0 \<le> i")
  case True
  from digits_of_nat [of "nat i"] obtain ds
    where ds: "ds \<noteq> []" "list_all (is_radix_digit 10) ds" "radix_value 10 0 ds = nat i"
    by blast
  from ds(1,2) have "hd ds \<noteq> 43 \<and> hd ds \<noteq> 45"
    by (cases ds) (auto simp: decimal_digit_iff)
  with ds(1,2) have "is_integer_string ds"
    by (simp add: is_integer_string_def)
  moreover have "parseInt ds = Integer i"
    using parseInt_decimal_digits(1) [OF ds(1,2)] ds(3) True by simp
  ultimately show ?thesis by blast
next
  case False
  from digits_of_nat [of "nat (- i)"] obtain ds
    where ds: "ds \<noteq> []" "list_all (is_radix_digit 10) ds" "radix_value 10 0 ds = nat (- i)"
    by blast
  from ds(1,2) have "is_integer_string (45 # ds)"
    by (simp add: is_integer_string_def)
  moreover have "parseInt (45 # ds) = Integer i"
    using parseInt_decimal_digits(3) [OF ds(1,2)] ds(3) False by simp
  ultimately show ?thesis by blast
qed

text \<open>
  Claim C9, amended. When \<open>parseInt\<close> reads no number from the path (the result is
  \<open>NaN\<close>, which only a path that is not an integer gives), \<open>GET\<close>, \<open>PUT\<close> and
  \<open>DELETE /teas/:id\<close> answer 404 and return the store as it was.
\<close>

theorem NaN_path_not_found:
  assumes "parseInt p = NaN"
  shows "\<not> is_integer_string p \<and>
         get_teas_id s p = (s, \<lparr>status = 404, body = Text ''tea not found ''\<rparr>) \<and>
         put_teas_id s p b = (s, \<lparr>status = 404, body = Text ''tea not found ''\<rparr>) \<and>
         delete_teas_id s p = (s, \<lparr>status = 404, body = Text ''tea not found''\<rparr>)"
proof -
  from assms have "\<not> is_integer_string p"
    using parseInt_integer_string [of p] by auto
  moreover from assms have "\<forall>t \<in> set (teaData s). \<not> strict_equals (id' t) (parseInt p)"
    by simp
  ultimately show ?thesis
    by (simp add: get_teas_id_absent put_teas_id_absent delete_teas_id_absent send_def)
qed

theorem NaN_path_not_found_witness:
  "parseInt (units ''abc'') = NaN \<and>
   \<not> is_integer_string (units ''abc'') \<and>
   get_teas_id two_teas (units ''abc'') =
     (two_teas, \<lparr>status = 404, body = Text ''tea not found ''\<rparr>) \<and>
   put_teas_id two_teas (units ''abc'') (Some green_tea_updated) =
     (two_teas, \<lparr>status = 404, body = Text ''tea not found ''\<rparr>) \<and>
   delete_teas_id two_teas (units ''abc'') =
     (two_teas, \<lparr>status = 404, body = Text ''tea not found''\<rparr>)"
  using NaN_path_not_found [OF parseInt_abc, of two_teas "Some green_tea_updated"] parseInt_abc
  by blast

end
